theory Spec2Isabelle
  imports Complex_Main "HOL-Library.Sublist"
begin

section \<open>pywb.utils.loaders: a shallow embedding\<close>

text \<open>
  The module \<^verbatim>\<open>pywb/utils/loaders.py\<close> (Python 2) provides \<^verbatim>\<open>BlockLoader\<close>,
  \<^verbatim>\<open>HMACCookieMaker\<close>, \<^verbatim>\<open>LimitReader\<close> and \<^verbatim>\<open>SeekableTextFileReader\<close>.
  Byte strings are \<open>string\<close> (a list of 8-bit characters), Python integers are \<open>int\<close>,
  an exception is the \<open>Inl\<close> branch of a sum, and a mutable object is a value that every
  method returns updated.
\<close>

subsection \<open>Python values and exceptions\<close>

datatype exn =
    IOError string
  | ValueError
  | TypeError
  | OverflowError
  | ImportError string
  | URLError string

subsection \<open>Floats\<close>


text \<open>The number of bits of a positive integer, and the powers of two.\<close>

function bit_length :: "int \<Rightarrow> int" where
  "bit_length n = (if n \<le> 0 then 0 else 1 + bit_length (n div 2))"
  by pat_completeness auto
termination
  by (relation "measure nat") auto

function pow2 :: "int \<Rightarrow> real" where
  "pow2 k = (if k = 0 then 1 else if 0 < k then 2 * pow2 (k - 1) else pow2 (k + 1) / 2)"
  by pat_completeness auto
termination
  by (relation "measure (\<lambda>k. nat \<bar>k\<bar>)") auto

text \<open>The exponent \<open>b\<close> with \<^verbatim>\<open>2**b <= |x| < 2**(b+1)\<close>, for \<open>x\<close> other than 0.\<close>

definition binade :: "real \<Rightarrow> int" where
  "binade x =
     (if 1 \<le> \<bar>x\<bar> then bit_length \<lfloor>\<bar>x\<bar>\<rfloor> - 1
      else - bit_length (\<lceil>1 / \<bar>x\<bar>\<rceil> - 1))"

definition round_half_even :: "real \<Rightarrow> int" where
  "round_half_even q =
     (let n = \<lfloor>q\<rfloor>; r = q - of_int n
      in if r < 1 / 2 then n else if 1 / 2 < r then n + 1 else if even n then n else n + 1)"

definition round_double :: "real \<Rightarrow> real" where
  "round_double x =
     (if x = 0 then 0
      else (let ulp = pow2 (binade x - 52) in of_int (round_half_even (x / ulp)) * ulp))"

text \<open>
  \<^verbatim>\<open>x + d\<close> for a float \<open>x\<close> and an integer \<open>d\<close>: the integer is converted to a float
  and the sum of the two floats is rounded.
\<close>

definition double_add :: "real \<Rightarrow> int \<Rightarrow> real" where
  "double_add x d = round_double (round_double x + round_double (of_int d))"

text \<open>\<^verbatim>\<open>long(x)\<close> and \<^verbatim>\<open>int(x)\<close> of a finite float: truncation towards zero.\<close>

definition py_long :: "real \<Rightarrow> int" where
  "py_long x = (if 0 \<le> x then \<lfloor>x\<rfloor> else \<lceil>x\<rceil>)"


subsection \<open>File objects\<close>

text \<open>
  A file object opened with mode \<^verbatim>\<open>'rb'\<close>: the bytes of the file and the read position.
  \<^verbatim>\<open>read(n)\<close> returns the rest of the file when \<open>n\<close> is negative and at most \<open>n\<close>
  bytes otherwise; \<^verbatim>\<open>readline(n)\<close> stops after the first newline as well;
  \<^verbatim>\<open>seek(offset)\<close> is absolute and refuses a negative offset.
\<close>

record pyfile =
  content :: string
  pos :: nat

definition file_read :: "int \<Rightarrow> pyfile \<Rightarrow> string \<times> pyfile" where
  "file_read n f =
     (let rest = drop (pos f) (content f);
          buff = (if n < 0 then rest else take (nat n) rest)
      in (buff, f\<lparr>pos := pos f + length buff\<rparr>))"

definition first_line :: "string \<Rightarrow> string" where
  "first_line bs =
     takeWhile (\<lambda>c. c \<noteq> CHR 0x0A) bs @ take 1 (dropWhile (\<lambda>c. c \<noteq> CHR 0x0A) bs)"

definition file_readline :: "int \<Rightarrow> pyfile \<Rightarrow> string \<times> pyfile" where
  "file_readline n f =
     (let line = first_line (drop (pos f) (content f));
          buff = (if n < 0 then line else take (nat n) line)
      in (buff, f\<lparr>pos := pos f + length buff\<rparr>))"

definition file_seek :: "int \<Rightarrow> pyfile \<Rightarrow> exn + pyfile" where
  "file_seek offset f =
     (if offset < 0 then Inl (IOError ''[Errno 22] Invalid argument'')
      else Inr (f\<lparr>pos := nat offset\<rparr>))"

subsection \<open>Streams as the readers see them\<close>

text \<open>
  \<^verbatim>\<open>LimitReader\<close> calls \<^verbatim>\<open>read\<close> and \<^verbatim>\<open>readline\<close> on whatever object it was given.
  The two methods of that object are the two fields of \<open>stream_ops\<close>, over the object's
  state \<open>'s\<close>.
\<close>

record 's stream_ops =
  ops_read :: "int \<Rightarrow> 's \<Rightarrow> string \<times> 's"
  ops_readline :: "int \<Rightarrow> 's \<Rightarrow> string \<times> 's"

definition file_ops :: "pyfile stream_ops" where
  "file_ops = \<lparr>ops_read = file_read, ops_readline = file_readline\<rparr>"

subsection \<open>LimitReader\<close>

record 's LimitReader =
  stream :: 's
  limit :: int

text \<open>\<^verbatim>\<open>__init__\<close>: a limit that is falsy (zero) is replaced by 1.\<close>

definition LimitReader_init :: "'s \<Rightarrow> int \<Rightarrow> 's LimitReader" where
  "LimitReader_init s lmt =
     (let self = \<lparr>stream = s, limit = lmt\<rparr>
      in if \<not> (limit self \<noteq> 0) then self\<lparr>limit := 1\<rparr> else self)"

text \<open>
  The first line of \<^verbatim>\<open>read\<close> and of \<^verbatim>\<open>readline\<close>:
  \<^verbatim>\<open>length = min(length, self.limit) if length else self.limit\<close>.
  \<^verbatim>\<open>None\<close> and \<open>0\<close> are the falsy arguments.
\<close>

definition truthy :: "int option \<Rightarrow> bool" where
  "truthy len = (case len of None \<Rightarrow> False | Some n \<Rightarrow> n \<noteq> 0)"

definition clamp_length :: "int option \<Rightarrow> int \<Rightarrow> int" where
  "clamp_length len lmt = (if truthy len then min (the len) lmt else lmt)"

definition LimitReader_read ::
  "'s stream_ops \<Rightarrow> int option \<Rightarrow> 's LimitReader \<Rightarrow> string \<times> 's LimitReader" where
  "LimitReader_read ops len self =
     (let n = clamp_length len (limit self);
          (buff, s') = ops_read ops n (stream self)
      in (buff, self\<lparr>stream := s', limit := limit self - int (length buff)\<rparr>))"

definition LimitReader_readline ::
  "'s stream_ops \<Rightarrow> int option \<Rightarrow> 's LimitReader \<Rightarrow> string \<times> 's LimitReader" where
  "LimitReader_readline ops len self =
     (let n = clamp_length len (limit self);
          (buff, s') = ops_readline ops n (stream self)
      in (buff, self\<lparr>stream := s', limit := limit self - int (length buff)\<rparr>))"

text \<open>A call on a reader, and a run of calls with what each one asked for and got.\<close>

datatype call = Read "int option" | Readline "int option"

fun call_arg :: "call \<Rightarrow> int option" where
  "call_arg (Read len) = len"
| "call_arg (Readline len) = len"

fun LimitReader_call ::
  "'s stream_ops \<Rightarrow> call \<Rightarrow> 's LimitReader \<Rightarrow> string \<times> 's LimitReader" where
  "LimitReader_call ops (Read len) self = LimitReader_read ops len self"
| "LimitReader_call ops (Readline len) self = LimitReader_readline ops len self"

record observation =
  requested :: int
  returned :: string
  budget_before :: int
  budget_after :: int

fun run :: "'s stream_ops \<Rightarrow> 's LimitReader \<Rightarrow> call list \<Rightarrow> observation list" where
  "run ops self [] = []"
| "run ops self (c # cs) =
     (let (buff, self') = LimitReader_call ops c self
      in \<lparr>requested = clamp_length (call_arg c) (limit self), returned = buff,
          budget_before = limit self, budget_after = limit self'\<rparr> # run ops self' cs)"

fun exec :: "'s stream_ops \<Rightarrow> 's LimitReader \<Rightarrow> call list \<Rightarrow> 's LimitReader" where
  "exec ops self [] = self"
| "exec ops self (c # cs) = exec ops (snd (LimitReader_call ops c self)) cs"

definition total_bytes :: "observation list \<Rightarrow> nat" where
  "total_bytes obs = length (concat (map returned obs))"

text \<open>
  \<^verbatim>\<open>wrap_stream\<close> returns either the stream it was given or a \<^verbatim>\<open>LimitReader\<close>
  around it, and so does \<^verbatim>\<open>BlockLoader.load\<close>.
\<close>

datatype 's maybe_limited = Raw 's | Limited "'s LimitReader"







subsection \<open>Rendering integers\<close>

text \<open>\<^verbatim>\<open>str(n)\<close> and \<^verbatim>\<open>'{0}'.format(n)\<close> of an integer: its decimal digits, with a sign.\<close>

definition digit_char :: "nat \<Rightarrow> char" where
  "digit_char d = char_of (48 + d)"

function str_nat :: "nat \<Rightarrow> string" where
  "str_nat n = (if n < 10 then [digit_char n] else str_nat (n div 10) @ [digit_char (n mod 10)])"
  by pat_completeness auto
termination
  by (relation "measure id") auto

definition str_int :: "int \<Rightarrow> string" where
  "str_int i = (if i < 0 then CHR ''-'' # str_nat (nat (- i)) else str_nat (nat i))"

subsection \<open>The world outside\<close>

record request =
  req_url :: string
  req_headers :: "string \<rightharpoonup> string"

text \<open>
  What the module reaches through \<^verbatim>\<open>open\<close>, \<^verbatim>\<open>os.path.getsize\<close>,
  \<^verbatim>\<open>pkg_resources.resource_stream\<close>, \<^verbatim>\<open>urllib2.urlopen\<close>, \<^verbatim>\<open>time.time\<close> and
  \<^verbatim>\<open>hmac.new(key, msg).hexdigest()\<close>. The clock is what \<^verbatim>\<open>time.time()\<close> returns, a
  float of seconds.
\<close>

record env =
  files :: "string \<rightharpoonup> string"
  resources :: "string \<Rightarrow> string \<Rightarrow> exn + string"
  urlopen :: "request \<Rightarrow> exn + string"
  clock :: real
  hmac_hexdigest :: "string \<Rightarrow> string \<Rightarrow> string"

datatype event = Open string | ResourceStream string string | UrlOpen request

definition py_open :: "env \<Rightarrow> string \<Rightarrow> exn + pyfile" where
  "py_open e path =
     (case files e path of
        None \<Rightarrow> Inl (IOError path)
      | Some bytes \<Rightarrow> Inr \<lparr>content = bytes, pos = 0\<rparr>)"

definition os_path_getsize :: "env \<Rightarrow> string \<Rightarrow> exn + int" where
  "os_path_getsize e path =
     (case files e path of
        None \<Rightarrow> Inl (IOError path)
      | Some bytes \<Rightarrow> Inr (int (length bytes)))"

definition resource_stream :: "env \<Rightarrow> string \<Rightarrow> string \<Rightarrow> exn + pyfile" where
  "resource_stream e package_name resource_name =
     (case resources e package_name resource_name of
        Inl err \<Rightarrow> Inl err
      | Inr bytes \<Rightarrow> Inr \<lparr>content = bytes, pos = 0\<rparr>)"

subsection \<open>HMACCookieMaker\<close>

record HMACCookieMaker =
  key :: string
  name :: string
  duration :: int

text \<open>\<^verbatim>\<open>str(long(time.time() + self.duration))\<close>: a float sum, truncated, in decimal.\<close>

definition make_expire :: "env \<Rightarrow> HMACCookieMaker \<Rightarrow> string" where
  "make_expire e self = str_int (py_long (double_add (clock e) (duration self)))"

definition make_msg :: "string \<Rightarrow> string \<Rightarrow> string" where
  "make_msg extra_id expire = (if extra_id \<noteq> [] then extra_id @ ''-'' @ expire else expire)"

text \<open>\<^verbatim>\<open>HMACCookieMaker.make\<close> (named \<open>make_cookie\<close>: every record has a \<open>make\<close> of its own).\<close>

definition make_cookie :: "env \<Rightarrow> HMACCookieMaker \<Rightarrow> string \<Rightarrow> string" where
  "make_cookie e self extra_id =
     (let expire = make_expire e self;
          msg = make_msg extra_id expire;
          hexdigest = hmac_hexdigest e (key self) msg
      in if extra_id \<noteq> []
         then name self @ ''-'' @ extra_id @ ''='' @ expire @ ''-'' @ hexdigest
         else name self @ ''='' @ expire @ ''-'' @ hexdigest)"

subsection \<open>BlockLoader\<close>

record BlockLoader =
  cookie_maker :: "HMACCookieMaker option"

definition is_http :: "string \<Rightarrow> bool" where
  "is_http filename = (prefix ''http://'' filename \<or> prefix ''https://'' filename)"

text \<open>\<^verbatim>\<open>s.split(sep, 1)\<close>: one piece without the separator, two pieces around its first occurrence.\<close>

definition split_first :: "char \<Rightarrow> string \<Rightarrow> string list" where
  "split_first sep s =
     (case dropWhile (\<lambda>c. c \<noteq> sep) s of
        [] \<Rightarrow> [s]
      | _ # rest \<Rightarrow> [takeWhile (\<lambda>c. c \<noteq> sep) s, rest])"

text \<open>
  What \<^verbatim>\<open>load\<close> hands back is a file object or the body of an HTTP response (both read
  like files), bare or inside a \<^verbatim>\<open>LimitReader\<close>.
\<close>

datatype stream_obj = FileObj pyfile | HttpBody pyfile

fun obj_read :: "int \<Rightarrow> stream_obj \<Rightarrow> string \<times> stream_obj" where
  "obj_read n (FileObj f) = (let (buff, f') = file_read n f in (buff, FileObj f'))"
| "obj_read n (HttpBody f) = (let (buff, f') = file_read n f in (buff, HttpBody f'))"

fun obj_readline :: "int \<Rightarrow> stream_obj \<Rightarrow> string \<times> stream_obj" where
  "obj_readline n (FileObj f) = (let (buff, f') = file_readline n f in (buff, FileObj f'))"
| "obj_readline n (HttpBody f) = (let (buff, f') = file_readline n f in (buff, HttpBody f'))"

definition obj_ops :: "stream_obj stream_ops" where
  "obj_ops = \<lparr>ops_read = obj_read, ops_readline = obj_readline\<rparr>"

type_synonym loaded = "stream_obj maybe_limited"

definition is_IOError :: "exn \<Rightarrow> bool" where
  "is_IOError err = (case err of IOError _ \<Rightarrow> True | _ \<Rightarrow> False)"

text \<open>
  \<^verbatim>\<open>load_file_or_resource\<close>, with the calls it makes to the world in the order it makes
  them. \<open>opened\<close> is the outcome of the \<^verbatim>\<open>try\<close> statement: the file object bound to
  \<^verbatim>\<open>afile\<close>, or the exception that leaves the function.
\<close>

definition load_file_or_resource ::
  "env \<Rightarrow> string \<Rightarrow> int \<Rightarrow> int \<Rightarrow> event list \<times> (exn + loaded)" where
  "load_file_or_resource e url0 offset len =
     (let file_only = prefix ''file://'' url0;
          url = (if file_only then drop (length ''file://'') url0 else url0);
          (log, opened) =
            (case py_open e url of
               Inr afile \<Rightarrow> ([Open url], Inr afile)
             | Inl err \<Rightarrow>
                 if \<not> is_IOError err then ([Open url], Inl err)
                 else if file_only then ([Open url], Inl err)
                 else
                   (let pkg_split = split_first CHR ''/'' url
                    in if length pkg_split = 1 then ([Open url], Inl err)
                       else ([Open url, ResourceStream (pkg_split ! 0) (pkg_split ! 1)],
                             resource_stream e (pkg_split ! 0) (pkg_split ! 1))))
      in case opened of
           Inl err \<Rightarrow> (log, Inl err)
         | Inr afile \<Rightarrow>
             (case (if offset > 0 then file_seek offset afile else Inr afile) of
                Inl err \<Rightarrow> (log, Inl err)
              | Inr afile' \<Rightarrow>
                  (log, Inr (if len \<ge> 0 then Limited (LimitReader_init (FileObj afile') len)
                             else Raw (FileObj afile')))))"

text \<open>
  \<^verbatim>\<open>load_http\<close>: the request it builds (the range header, the cookie when a cookie maker
  is set), then \<^verbatim>\<open>urllib2.urlopen\<close> on it, whose result is returned as it is.
\<close>

definition load_http_request :: "env \<Rightarrow> BlockLoader \<Rightarrow> string \<Rightarrow> int \<Rightarrow> int \<Rightarrow> request" where
  "load_http_request e self url offset len =
     (let range_header =
            (if len > 0 then ''bytes='' @ str_int offset @ ''-'' @ str_int (offset + len - 1)
             else ''bytes='' @ str_int offset @ ''-'');
          headers = Map.empty;
          headers = headers(''Range'' \<mapsto> range_header);
          headers = (case cookie_maker self of
                       Some maker \<Rightarrow> headers(''Cookie'' \<mapsto> make_cookie e maker [])
                     | None \<Rightarrow> headers)
      in \<lparr>req_url = url, req_headers = headers\<rparr>)"

definition load_http ::
  "env \<Rightarrow> BlockLoader \<Rightarrow> string \<Rightarrow> int \<Rightarrow> int \<Rightarrow> event list \<times> (exn + loaded)" where
  "load_http e self url offset len =
     (let request = load_http_request e self url offset len
      in ([UrlOpen request],
          case urlopen e request of
            Inl err \<Rightarrow> Inl err
          | Inr body \<Rightarrow> Inr (Raw (HttpBody \<lparr>content = body, pos = 0\<rparr>))))"

definition load ::
  "env \<Rightarrow> BlockLoader \<Rightarrow> string \<Rightarrow> int \<Rightarrow> int \<Rightarrow> event list \<times> (exn + loaded)" where
  "load e self url offset len =
     (if is_http url then load_http e self url offset len
      else load_file_or_resource e url offset len)"

subsection \<open>SeekableTextFileReader\<close>

record SeekableTextFileReader =
  fh :: pyfile
  filename :: string
  size_attr :: int

definition SeekableTextFileReader_init :: "env \<Rightarrow> string \<Rightarrow> exn + SeekableTextFileReader" where
  "SeekableTextFileReader_init e fname =
     (case py_open e fname of
        Inl err \<Rightarrow> Inl err
      | Inr handle \<Rightarrow>
          (case os_path_getsize e fname of
             Inl err \<Rightarrow> Inl err
           | Inr sz \<Rightarrow> Inr \<lparr>fh = handle, filename = fname, size_attr = sz\<rparr>))"

definition getsize :: "SeekableTextFileReader \<Rightarrow> int" where
  "getsize self = size_attr self"

text \<open>\<^verbatim>\<open>self.fh.read()\<close> and \<^verbatim>\<open>self.fh.readline()\<close> pass no size: the negative default.\<close>

definition SeekableTextFileReader_read ::
  "SeekableTextFileReader \<Rightarrow> string \<times> SeekableTextFileReader" where
  "SeekableTextFileReader_read self =
     (let (buff, handle) = file_read (- 1) (fh self) in (buff, self\<lparr>fh := handle\<rparr>))"

definition SeekableTextFileReader_readline ::
  "SeekableTextFileReader \<Rightarrow> string \<times> SeekableTextFileReader" where
  "SeekableTextFileReader_readline self =
     (let (buff, handle) = file_readline (- 1) (fh self) in (buff, self\<lparr>fh := handle\<rparr>))"

definition SeekableTextFileReader_seek ::
  "int \<Rightarrow> SeekableTextFileReader \<Rightarrow> exn + SeekableTextFileReader" where
  "SeekableTextFileReader_seek offset self =
     (case file_seek offset (fh self) of
        Inl err \<Rightarrow> Inl err
      | Inr handle \<Rightarrow> Inr (self\<lparr>fh := handle\<rparr>))"

datatype reader_call = RRead | RReadline | RSeek int

text \<open>
  One call on the reader: what it returns (the bytes, nothing for \<^verbatim>\<open>seek\<close>, or the
  exception) and the reader afterwards; an exception leaves the reader as it was.
\<close>

fun apply_call ::
  "reader_call \<Rightarrow> SeekableTextFileReader \<Rightarrow> (exn + string) \<times> SeekableTextFileReader" where
  "apply_call RRead self =
     (let (buff, self') = SeekableTextFileReader_read self in (Inr buff, self'))"
| "apply_call RReadline self =
     (let (buff, self') = SeekableTextFileReader_readline self in (Inr buff, self'))"
| "apply_call (RSeek offset) self =
     (case SeekableTextFileReader_seek offset self of
        Inl err \<Rightarrow> (Inl err, self)
      | Inr self' \<Rightarrow> (Inr [], self'))"

fun apply_calls :: "reader_call list \<Rightarrow> SeekableTextFileReader \<Rightarrow> SeekableTextFileReader" where
  "apply_calls [] self = self"
| "apply_calls (c # cs) self = apply_calls cs (snd (apply_call c self))"

subsection \<open>Calls with a usable size, and a small world to run things in\<close>

text \<open>A call whose size argument is left out or is not negative.\<close>

definition sane_arg :: "call \<Rightarrow> bool" where
  "sane_arg c = (case call_arg c of None \<Rightarrow> True | Some n \<Rightarrow> 0 \<le> n)"

text \<open>
  One file of six bytes, one packaged resource, a server that answers every request, a
  clock at half past second 1000, and a keyed digest that only concatenates.
\<close>

definition example_env :: env where
  "example_env =
     \<lparr>files = [''data/x.txt'' \<mapsto> ''abcdef''],
      resources = (\<lambda>p r. if p = ''pkg'' \<and> r = ''a/b.txt'' then Inr ''resource''
                          else Inl (ImportError p)),
      urlopen = (\<lambda>r. Inr ''response body''),
      clock = 1000.5,
      hmac_hexdigest = (\<lambda>k m. k @ m)\<rparr>"

section \<open>LimitReader: the budget\<close>

lemma clamp_length_falsy:
  "clamp_length (Some 0) b = clamp_length None b" "clamp_length None b = b"
  by (simp_all add: clamp_length_def truthy_def)

lemma clamp_length_le: "clamp_length len b \<le> b"
  by (simp add: clamp_length_def)

lemma clamp_length_sane: "0 \<le> b \<Longrightarrow> sane_arg c \<Longrightarrow> 0 \<le> clamp_length (call_arg c) b"
  by (auto simp: clamp_length_def sane_arg_def truthy_def split: option.splits)

text \<open>The \<open>requested\<close> field of an observation is the size the stream was asked for.\<close>

lemma call_forwards_clamped:
  "fst (LimitReader_call ops c self)
     = fst ((case c of Read _ \<Rightarrow> ops_read ops | Readline _ \<Rightarrow> ops_readline ops)
             (clamp_length (call_arg c) (limit self)) (stream self))"
  by (cases c) (simp_all add: LimitReader_read_def LimitReader_readline_def Let_def split_beta)

lemma LimitReader_call_limit:
  "limit (snd (LimitReader_call ops c self))
     = limit self - int (length (fst (LimitReader_call ops c self)))"
  by (cases c) (simp_all add: LimitReader_read_def LimitReader_readline_def Let_def
      split: prod.splits)

lemma run_append:
  "run ops self (cs1 @ cs2) = run ops self cs1 @ run ops (exec ops self cs1) cs2"
  by (induction cs1 arbitrary: self) (simp_all add: Let_def split: prod.splits)

lemma exec_append: "exec ops self (cs1 @ cs2) = exec ops (exec ops self cs1) cs2"
  by (induction cs1 arbitrary: self) simp_all

lemma exec_limit_le: "limit (exec ops self cs) \<le> limit self"
proof (induction cs arbitrary: self)
  case Nil
  show ?case by simp
next
  case (Cons c cs)
  have "limit (exec ops (snd (LimitReader_call ops c self)) cs)
          \<le> limit (snd (LimitReader_call ops c self))"
    by (rule Cons.IH)
  also have "\<dots> \<le> limit self"
    by (simp add: LimitReader_call_limit)
  finally show ?case by simp
qed

lemma run_accounting:
  "ob \<in> set (run ops self cs) \<Longrightarrow>
     budget_after ob = budget_before ob - int (length (returned ob))"
proof (induction cs arbitrary: self)
  case Nil
  then show ?case by simp
next
  case (Cons c cs)
  obtain buff self' where step: "LimitReader_call ops c self = (buff, self')"
    by (cases "LimitReader_call ops c self")
  have lim: "limit self' = limit self - int (length buff)"
    using LimitReader_call_limit [of ops c self] step by simp
  from Cons.prems step
  consider "ob = \<lparr>requested = clamp_length (call_arg c) (limit self), returned = buff,
                   budget_before = limit self, budget_after = limit self'\<rparr>"
    | "ob \<in> set (run ops self' cs)"
    by auto
  then show ?case
  proof cases
    case 1
    then show ?thesis using lim by simp
  next
    case 2
    then show ?thesis by (rule Cons.IH)
  qed
qed

lemma exhausted_returns_empty:
  "limit self = 0 \<Longrightarrow>
   \<forall>ob \<in> set (run ops self cs). int (length (returned ob)) \<le> requested ob \<Longrightarrow>
   ob \<in> set (run ops self cs) \<Longrightarrow> returned ob = [] \<and> budget_after ob = 0"
proof (induction cs arbitrary: self)
  case Nil
  then show ?case by simp
next
  case (Cons c cs)
  obtain buff self' where step: "LimitReader_call ops c self = (buff, self')"
    by (cases "LimitReader_call ops c self")
  let ?hd = "\<lparr>requested = clamp_length (call_arg c) (limit self), returned = buff,
              budget_before = limit self, budget_after = limit self'\<rparr>"
  have unfold: "run ops self (c # cs) = ?hd # run ops self' cs"
    using step by simp
  have all: "\<forall>ob \<in> set (?hd # run ops self' cs). int (length (returned ob)) \<le> requested ob"
    using Cons.prems(2) unfolding unfold .
  have "int (length buff) \<le> clamp_length (call_arg c) (limit self)"
    using all by simp
  also have "\<dots> \<le> 0"
    using clamp_length_le [of "call_arg c" "limit self"] Cons.prems(1) by simp
  finally have empty: "buff = []" by simp
  have lim: "limit self' = 0"
    using LimitReader_call_limit [of ops c self] step empty Cons.prems(1) by simp
  from Cons.prems(3) have "ob \<in> set (?hd # run ops self' cs)"
    unfolding unfold .
  then consider "ob = ?hd" | "ob \<in> set (run ops self' cs)"
    by auto
  then show ?case
  proof cases
    case 1
    then show ?thesis using empty lim by simp
  next
    case 2
    have "\<forall>ob \<in> set (run ops self' cs). int (length (returned ob)) \<le> requested ob"
      using all by simp
    then show ?thesis using Cons.IH [OF lim _ 2] by blast
  qed
qed

section \<open>Claims about LimitReader\<close>

text \<open>
  The budget on runs in which every call got from the stream at most the number of bytes
  it asked for (so no call asked for a negative number): every call lowers the budget by
  exactly the number of bytes it returned, the budget never goes up, and once it stands at
  zero every later call returns the empty string. The accounting and the monotonicity
  need no assumption at all.
\<close>

theorem budget_invariant:
  assumes "\<forall>ob \<in> set (run ops self (cs1 @ cs2)). int (length (returned ob)) \<le> requested ob"
  shows "(\<forall>ob \<in> set (run ops self (cs1 @ cs2)).
            budget_after ob = budget_before ob - int (length (returned ob))
          \<and> budget_after ob \<le> budget_before ob)
       \<and> limit (exec ops self (cs1 @ cs2)) \<le> limit (exec ops self cs1)
       \<and> (limit (exec ops self cs1) = 0 \<longrightarrow>
            (\<forall>ob \<in> set (run ops (exec ops self cs1) cs2). returned ob = []))"
proof (intro conjI ballI impI)
  fix ob assume "ob \<in> set (run ops self (cs1 @ cs2))"
  then show acc: "budget_after ob = budget_before ob - int (length (returned ob))"
    by (rule run_accounting)
  then show "budget_after ob \<le> budget_before ob" by simp
next
  show "limit (exec ops self (cs1 @ cs2)) \<le> limit (exec ops self cs1)"
    by (simp add: exec_append exec_limit_le)
next
  fix ob
  assume zero: "limit (exec ops self cs1) = 0"
    and mem: "ob \<in> set (run ops (exec ops self cs1) cs2)"
  have "\<forall>ob \<in> set (run ops (exec ops self cs1) cs2). int (length (returned ob)) \<le> requested ob"
    using assms by (simp add: run_append)
  with zero show "returned ob = []"
    using mem exhausted_returns_empty by blast
qed

text \<open>
  On a file of six bytes under a budget of 3: \<^verbatim>\<open>read(2)\<close> and \<^verbatim>\<open>readline()\<close> use the
  budget up, and \<^verbatim>\<open>read(5)\<close> and \<^verbatim>\<open>readline(0)\<close> after them return nothing.
\<close>

theorem budget_invariant_witness:
  "map returned (run file_ops (LimitReader_init \<lparr>content = ''abcdef'', pos = 0\<rparr> 3)
      ([Read (Some 2), Readline None] @ [Read (Some 5), Readline (Some 0)]))
     = [''ab'', ''c'', [], []]
   \<and> map requested (run file_ops (LimitReader_init \<lparr>content = ''abcdef'', pos = 0\<rparr> 3)
      ([Read (Some 2), Readline None] @ [Read (Some 5), Readline (Some 0)]))
     = [2, 1, 0, 0]
   \<and> limit (exec file_ops (LimitReader_init \<lparr>content = ''abcdef'', pos = 0\<rparr> 3)
        [Read (Some 2), Readline None]) = 0
   \<and> map returned (run file_ops
        (exec file_ops (LimitReader_init \<lparr>content = ''abcdef'', pos = 0\<rparr> 3)
           [Read (Some 2), Readline None])
        [Read (Some 5), Readline (Some 0)]) = [[], []]"
proof -
  let ?r = "LimitReader_init \<lparr>content = ''abcdef'', pos = 0\<rparr> 3"
  let ?cs1 = "[Read (Some 2), Readline None]"
  let ?cs2 = "[Read (Some 5), Readline (Some 0)]"
  have run: "run file_ops ?r (?cs1 @ ?cs2)
      = [\<lparr>requested = 2, returned = ''ab'', budget_before = 3, budget_after = 1\<rparr>,
         \<lparr>requested = 1, returned = ''c'', budget_before = 1, budget_after = 0\<rparr>,
         \<lparr>requested = 0, returned = [], budget_before = 0, budget_after = 0\<rparr>,
         \<lparr>requested = 0, returned = [], budget_before = 0, budget_after = 0\<rparr>]"
    by code_simp
  have honest: "\<forall>ob \<in> set (run file_ops ?r (?cs1 @ ?cs2)).
                  int (length (returned ob)) \<le> requested ob"
    unfolding run by simp
  have zero: "limit (exec file_ops ?r ?cs1) = 0"
    by code_simp
  have tail: "run file_ops (exec file_ops ?r ?cs1) ?cs2
      = [\<lparr>requested = 0, returned = [], budget_before = 0, budget_after = 0\<rparr>,
         \<lparr>requested = 0, returned = [], budget_before = 0, budget_after = 0\<rparr>]"
    by code_simp
  from budget_invariant [OF honest] zero
  have "\<forall>ob \<in> set (run file_ops (exec file_ops ?r ?cs1) ?cs2). returned ob = []"
    by blast
  then show ?thesis
    using zero unfolding run tail by simp
qed

text \<open>
  Claim C4. The budget does not hold against a negative size. A file returns at most
  \<open>n\<close> bytes for every size \<open>n \<ge> 0\<close> (\<open>file_read_length\<close>, \<open>file_readline_length\<close>
  below), so it is a stream as the claim assumes. On a file of six bytes under a budget
  of 2, \<^verbatim>\<open>read(2)\<close> returns two bytes and leaves the budget at zero; then \<^verbatim>\<open>read(-1)\<close>
  computes \<^verbatim>\<open>min(-1, 0)\<close>, asks the file for \<open>-1\<close> bytes, which to a file means all
  that is left, and returns the other four bytes. The budget is then \<open>-4\<close>.
\<close>

theorem negative_size_bypasses_budget:
  "run file_ops (LimitReader_init \<lparr>content = ''abcdef'', pos = 0\<rparr> 2)
       [Read (Some 2), Read (Some (- 1))]
     = [\<lparr>requested = 2, returned = ''ab'', budget_before = 2, budget_after = 0\<rparr>,
        \<lparr>requested = - 1, returned = ''cdef'', budget_before = 0, budget_after = - 4\<rparr>]"
  by code_simp

text \<open>
  Claim C3. A reader built with limit 0 is the reader built with limit 1, on any stream:
  the two are the same object state, so every run of calls goes the same way.
  \<^verbatim>\<open>read(100)\<close> on it asks the stream for one byte, and on a file it returns at most
  one byte (one byte, not none, when the file has one left).
\<close>

theorem limit_zero_is_limit_one:
  "LimitReader_init s 0 = LimitReader_init s 1
   \<and> run ops (LimitReader_init s 0) cs = run ops (LimitReader_init s 1) cs
   \<and> fst (LimitReader_read ops (Some 100) (LimitReader_init s 0)) = fst (ops_read ops 1 s)
   \<and> length (fst (LimitReader_read file_ops (Some 100) (LimitReader_init f 0))) \<le> 1
   \<and> length (fst (LimitReader_read file_ops (Some 100) (LimitReader_init f 0)))
        = min 1 (length (content f) - pos f)"
  by (simp add: LimitReader_init_def LimitReader_read_def clamp_length_def truthy_def Let_def
      file_ops_def file_read_def split: prod.splits)

theorem limit_zero_is_limit_one_witness:
  "LimitReader_init \<lparr>content = ''abcdef'', pos = 0\<rparr> 0
     = LimitReader_init \<lparr>content = ''abcdef'', pos = 0\<rparr> 1
   \<and> fst (LimitReader_read file_ops (Some 100)
            (LimitReader_init \<lparr>content = ''abcdef'', pos = 0\<rparr> 0)) = ''a''"
proof -
  let ?f = "\<lparr>content = ''abcdef'', pos = 0\<rparr>"
  have one: "fst (ops_read file_ops 1 ?f) = ''a''"
    by (simp add: file_ops_def file_read_def)
  from limit_zero_is_limit_one [of ?f file_ops "[]" ?f]
  have "LimitReader_init ?f 0 = LimitReader_init ?f 1"
    and "fst (LimitReader_read file_ops (Some 100) (LimitReader_init ?f 0))
           = fst (ops_read file_ops 1 ?f)"
    by blast+
  with one show ?thesis by simp
qed

text \<open>
  Claim C10. On a reader with budget \<open>b > 0\<close>, \<^verbatim>\<open>read(0)\<close> and \<^verbatim>\<open>readline(0)\<close> are
  \<^verbatim>\<open>read()\<close> and \<^verbatim>\<open>readline()\<close>: the size asked of the stream is \<open>b\<close>, not zero, and on a
  file with \<open>b\<close> bytes left \<^verbatim>\<open>read(0)\<close> returns \<open>b\<close> bytes.
\<close>

theorem read_zero_requests_budget:
  assumes "0 < limit self"
  shows "clamp_length (Some 0) (limit self) = limit self
       \<and> clamp_length (Some 0) (limit self) \<noteq> 0
       \<and> LimitReader_read ops (Some 0) self = LimitReader_read ops None self
       \<and> LimitReader_readline ops (Some 0) self = LimitReader_readline ops None self
       \<and> fst (LimitReader_read ops (Some 0) self) = fst (ops_read ops (limit self) (stream self))
       \<and> fst (LimitReader_readline ops (Some 0) self)
           = fst (ops_readline ops (limit self) (stream self))
       \<and> (pos f + nat (limit self) \<le> length (content f) \<longrightarrow>
            length (fst (LimitReader_read file_ops (Some 0) \<lparr>stream = f, limit = limit self\<rparr>))
              = nat (limit self))"
  using assms
  by (simp add: LimitReader_read_def LimitReader_readline_def clamp_length_falsy Let_def
      file_ops_def file_read_def split: prod.splits)

theorem read_zero_requests_budget_witness:
  "0 < limit \<lparr>stream = \<lparr>content = ''abcdef'', pos = 1\<rparr>, limit = 3\<rparr>
   \<and> LimitReader_read file_ops (Some 0) \<lparr>stream = \<lparr>content = ''abcdef'', pos = 1\<rparr>, limit = 3\<rparr>
       = (''bcd'', \<lparr>stream = \<lparr>content = ''abcdef'', pos = 4\<rparr>, limit = 0\<rparr>)
   \<and> LimitReader_read file_ops None \<lparr>stream = \<lparr>content = ''abcdef'', pos = 1\<rparr>, limit = 3\<rparr>
       = (''bcd'', \<lparr>stream = \<lparr>content = ''abcdef'', pos = 4\<rparr>, limit = 0\<rparr>)"
proof -
  let ?self = "\<lparr>stream = \<lparr>content = ''abcdef'', pos = 1\<rparr>, limit = 3\<rparr>"
  have pos: "0 < limit ?self" by simp
  have omitted: "LimitReader_read file_ops None ?self
      = (''bcd'', \<lparr>stream = \<lparr>content = ''abcdef'', pos = 4\<rparr>, limit = 0\<rparr>)"
    by code_simp
  from read_zero_requests_budget [OF pos, of file_ops]
  have "LimitReader_read file_ops (Some 0) ?self = LimitReader_read file_ops None ?self"
    by blast
  with omitted show ?thesis by simp
qed

section \<open>BlockLoader: the local backend\<close>

lemma file_read_length: "0 \<le> n \<Longrightarrow> int (length (fst (file_read n f))) \<le> n"
  by (simp add: file_read_def Let_def)

lemma file_readline_length: "0 \<le> n \<Longrightarrow> int (length (fst (file_readline n f))) \<le> n"
  by (simp add: file_readline_def Let_def)

lemma obj_read_length: "0 \<le> n \<Longrightarrow> int (length (fst (obj_read n s))) \<le> n"
  using file_read_length [of n] by (cases s) (simp_all add: split_beta Let_def)

lemma obj_readline_length: "0 \<le> n \<Longrightarrow> int (length (fst (obj_readline n s))) \<le> n"
  using file_readline_length [of n] by (cases s) (simp_all add: split_beta Let_def)

lemma obj_call_honest:
  assumes "0 \<le> limit self" and "sane_arg c"
  shows "int (length (fst (LimitReader_call obj_ops c self)))
           \<le> clamp_length (call_arg c) (limit self)"
proof -
  let ?n = "clamp_length (call_arg c) (limit self)"
  have n0: "0 \<le> ?n" using assms by (rule clamp_length_sane)
  show ?thesis
    using obj_read_length [OF n0] obj_readline_length [OF n0]
    by (cases c) (simp_all add: LimitReader_read_def LimitReader_readline_def obj_ops_def
        Let_def split_beta)
qed

lemma obj_call_length:
  assumes "0 \<le> limit self" and "sane_arg c"
  shows "int (length (fst (LimitReader_call obj_ops c self))) \<le> limit self"
proof -
  have "int (length (fst (LimitReader_call obj_ops c self)))
          \<le> clamp_length (call_arg c) (limit self)"
    using assms by (rule obj_call_honest)
  also have "\<dots> \<le> limit self" by (rule clamp_length_le)
  finally show ?thesis .
qed

text \<open>
  Files and response bodies asked for a size that is not negative return no more than
  that: on them, a reader with a budget that is not negative, called with sizes that are
  left out or not negative, never gets more than it asks for.
\<close>

lemma obj_runs_honest:
  "0 \<le> limit self \<Longrightarrow> list_all sane_arg cs \<Longrightarrow> ob \<in> set (run obj_ops self cs) \<Longrightarrow>
   int (length (returned ob)) \<le> requested ob"
proof (induction cs arbitrary: self)
  case Nil
  then show ?case by simp
next
  case (Cons c cs)
  obtain buff self' where step: "LimitReader_call obj_ops c self = (buff, self')"
    by (cases "LimitReader_call obj_ops c self")
  from Cons.prems(2) have sane: "sane_arg c" and rest: "list_all sane_arg cs"
    by simp_all
  have honest: "int (length buff) \<le> clamp_length (call_arg c) (limit self)"
    using obj_call_honest [OF Cons.prems(1) sane] step by simp
  have "limit self' = limit self - int (length buff)"
    using LimitReader_call_limit [of obj_ops c self] step by simp
  moreover have "int (length buff) \<le> limit self"
    using honest clamp_length_le [of "call_arg c" "limit self"] by simp
  ultimately have nonneg: "0 \<le> limit self'" by simp
  from Cons.prems(3) step
  consider "ob = \<lparr>requested = clamp_length (call_arg c) (limit self), returned = buff,
                   budget_before = limit self, budget_after = limit self'\<rparr>"
    | "ob \<in> set (run obj_ops self' cs)"
    by auto
  then show ?case
  proof cases
    case 1
    then show ?thesis using honest by simp
  next
    case 2
    with nonneg rest show ?thesis by (rule Cons.IH)
  qed
qed

lemma total_bytes_Cons:
  "total_bytes (ob # obs) = length (returned ob) + total_bytes obs"
  by (simp add: total_bytes_def)

lemma obj_total_le_limit:
  "0 \<le> limit self \<Longrightarrow> list_all sane_arg cs \<Longrightarrow>
   int (total_bytes (run obj_ops self cs)) \<le> limit self"
proof (induction cs arbitrary: self)
  case Nil
  then show ?case by (simp add: total_bytes_def)
next
  case (Cons c cs)
  obtain buff self' where step: "LimitReader_call obj_ops c self = (buff, self')"
    by (cases "LimitReader_call obj_ops c self")
  from Cons.prems have sane: "sane_arg c" and rest: "list_all sane_arg cs"
    by simp_all
  have len: "int (length buff) \<le> limit self"
    using obj_call_length [OF Cons.prems(1) sane] step by simp
  have lim: "limit self' = limit self - int (length buff)"
    using LimitReader_call_limit [of obj_ops c self] step by simp
  then have "0 \<le> limit self'" using len by simp
  then have "int (total_bytes (run obj_ops self' cs)) \<le> limit self'"
    using rest by (rule Cons.IH)
  then show ?case
    using step lim by (simp add: total_bytes_Cons)
qed

lemma LimitReader_init_limit: "0 \<le> l \<Longrightarrow> limit (LimitReader_init s l) = max l 1"
  by (simp add: LimitReader_init_def Let_def)

lemma load_local_shape:
  assumes "\<not> is_http p" and "0 \<le> l" and "snd (load e self p off l) = Inr r"
  shows "\<exists>f. r = Limited (LimitReader_init (FileObj f) l)"
  using assms
  by (auto simp: load_def load_file_or_resource_def Let_def
      split: sum.splits if_splits prod.splits)

text \<open>
  Claim C1, as the code has it. For a path that is not an HTTP URL and a length
  \<open>l \<ge> 0\<close>, whatever \<^verbatim>\<open>load\<close> returns is a \<^verbatim>\<open>LimitReader\<close> whose budget is
  \<open>max l 1\<close> (a length of zero becomes 1), and any calls of \<^verbatim>\<open>read\<close> and
  \<^verbatim>\<open>readline\<close> whose size is left out or not negative get at most \<open>max l 1\<close> bytes
  in total, however long the file is.
\<close>

theorem load_local_limit:
  assumes "\<not> is_http p" and "0 \<le> l" and "snd (load e self p off l) = Inr r"
    and "list_all sane_arg cs"
  shows "\<exists>lr. r = Limited lr \<and> limit lr = max l 1
             \<and> int (total_bytes (run obj_ops lr cs)) \<le> max l 1"
proof -
  from load_local_shape [OF assms(1-3)]
  obtain f where r: "r = Limited (LimitReader_init (FileObj f) l)" ..
  let ?lr = "LimitReader_init (FileObj f) l"
  have lim: "limit ?lr = max l 1" using assms(2) by (rule LimitReader_init_limit)
  then have "0 \<le> limit ?lr" by simp
  then have "int (total_bytes (run obj_ops ?lr cs)) \<le> limit ?lr"
    using assms(4) by (rule obj_total_le_limit)
  with r lim show ?thesis by simp
qed

text \<open>Three bytes asked of a file with four bytes past offset 2: three bytes come back.\<close>

theorem load_local_limit_witness:
  "\<not> is_http ''data/x.txt''
   \<and> snd (load example_env \<lparr>cookie_maker = None\<rparr> ''data/x.txt'' 2 3)
       = Inr (Limited \<lparr>stream = FileObj \<lparr>content = ''abcdef'', pos = 2\<rparr>, limit = 3\<rparr>)
   \<and> list_all sane_arg [Read (Some 2), Readline None, Read None]
   \<and> total_bytes (run obj_ops \<lparr>stream = FileObj \<lparr>content = ''abcdef'', pos = 2\<rparr>, limit = 3\<rparr>
        [Read (Some 2), Readline None, Read None]) = 3
   \<and> int (total_bytes (run obj_ops
        \<lparr>stream = FileObj \<lparr>content = ''abcdef'', pos = 2\<rparr>, limit = 3\<rparr>
        [Read (Some 2), Readline None, Read None])) \<le> max 3 1"
proof -
  let ?lr = "\<lparr>stream = FileObj \<lparr>content = ''abcdef'', pos = 2\<rparr>, limit = 3\<rparr>"
  let ?cs = "[Read (Some 2), Readline None, Read None]"
  have local: "\<not> is_http ''data/x.txt''" by code_simp
  have len: "(0::int) \<le> 3" by simp
  have loaded: "snd (load example_env \<lparr>cookie_maker = None\<rparr> ''data/x.txt'' 2 3)
                  = Inr (Limited ?lr)"
    by code_simp
  have sane: "list_all sane_arg ?cs" by code_simp
  have total: "total_bytes (run obj_ops ?lr ?cs) = 3" by code_simp
  from load_local_limit [OF local len loaded sane]
  have "int (total_bytes (run obj_ops ?lr ?cs)) \<le> max 3 1" by simp
  with local loaded sane total show ?thesis by blast
qed

text \<open>
  Claim C1 as stated fails twice. With length 0 the reader hands out one byte; and
  with length 2 a \<^verbatim>\<open>read(-1)\<close> passes the size \<open>-1\<close> on to the file, which returns
  all six bytes.
\<close>

theorem load_local_limit_counterexample:
  "\<not> is_http ''data/x.txt''
   \<and> snd (load example_env \<lparr>cookie_maker = None\<rparr> ''data/x.txt'' 0 0)
       = Inr (Limited \<lparr>stream = FileObj \<lparr>content = ''abcdef'', pos = 0\<rparr>, limit = 1\<rparr>)
   \<and> \<not> int (total_bytes (run obj_ops
          \<lparr>stream = FileObj \<lparr>content = ''abcdef'', pos = 0\<rparr>, limit = 1\<rparr> [Read None])) \<le> 0
   \<and> snd (load example_env \<lparr>cookie_maker = None\<rparr> ''data/x.txt'' 0 2)
       = Inr (Limited \<lparr>stream = FileObj \<lparr>content = ''abcdef'', pos = 0\<rparr>, limit = 2\<rparr>)
   \<and> \<not> int (total_bytes (run obj_ops
          \<lparr>stream = FileObj \<lparr>content = ''abcdef'', pos = 0\<rparr>, limit = 2\<rparr>
          [Read (Some (- 1))])) \<le> 2"
  by code_simp

lemma split_first_none: "sep \<notin> set s \<Longrightarrow> split_first sep s = [s]"
proof -
  assume "sep \<notin> set s"
  then have d: "dropWhile (\<lambda>c. c \<noteq> sep) s = []" by auto
  show ?thesis unfolding split_first_def d by simp
qed

lemma split_first_some: "sep \<notin> set ns \<Longrightarrow> split_first sep (ns @ sep # rel) = [ns, rel]"
proof -
  assume a: "sep \<notin> set ns"
  then have d: "dropWhile (\<lambda>c. c \<noteq> sep) (ns @ sep # rel) = sep # rel"
    by (auto simp: dropWhile_append3)
  have t: "takeWhile (\<lambda>c. c \<noteq> sep) (ns @ sep # rel) = ns"
    using a by (auto simp: takeWhile_tail)
  show ?thesis unfolding split_first_def d t by simp
qed

lemma py_open_None: "files e path = None \<Longrightarrow> py_open e path = Inl (IOError path)"
  by (simp add: py_open_def)

lemma py_open_Some:
  "files e path = Some bytes \<Longrightarrow> py_open e path = Inr \<lparr>content = bytes, pos = 0\<rparr>"
  by (simp add: py_open_def)

lemma file_only_fails:
  "prefix ''file://'' url \<Longrightarrow> files e (drop (length ''file://'') url) = None \<Longrightarrow>
   load_file_or_resource e url off len
     = ([Open (drop (length ''file://'') url)], Inl (IOError (drop (length ''file://'') url)))"
  by (simp add: load_file_or_resource_def py_open_None is_IOError_def Let_def)

lemma file_only_opens:
  "prefix ''file://'' url \<Longrightarrow> files e (drop (length ''file://'') url) = Some bytes \<Longrightarrow>
   load_file_or_resource e url off len
     = ([Open (drop (length ''file://'') url)],
        Inr (let afile = \<lparr>content = bytes, pos = (if off > 0 then nat off else 0)\<rparr>
             in if len \<ge> 0 then Limited (LimitReader_init (FileObj afile) len)
                else Raw (FileObj afile)))"
  by (simp add: load_file_or_resource_def py_open_Some file_seek_def Let_def)

lemma bare_no_slash:
  "\<not> prefix ''file://'' url \<Longrightarrow> files e url = None \<Longrightarrow> CHR ''/'' \<notin> set url \<Longrightarrow>
   load_file_or_resource e url off len = ([Open url], Inl (IOError url))"
  by (simp add: load_file_or_resource_def py_open_None is_IOError_def split_first_none Let_def)

lemma bare_fallback:
  assumes "\<not> prefix ''file://'' url" and "files e url = None"
    and "url = ns @ CHR ''/'' # rel" and "CHR ''/'' \<notin> set ns"
  shows "load_file_or_resource e url off len =
           ([Open url, ResourceStream ns rel],
            case resources e ns rel of
              Inl err \<Rightarrow> Inl err
            | Inr bytes \<Rightarrow>
                Inr (let afile = \<lparr>content = bytes, pos = (if off > 0 then nat off else 0)\<rparr>
                     in if len \<ge> 0 then Limited (LimitReader_init (FileObj afile) len)
                        else Raw (FileObj afile)))"
proof -
  have sp: "split_first CHR ''/'' url = [ns, rel]"
    using assms(3,4) by (simp add: split_first_some)
  show ?thesis
    using assms(1,2)
    by (auto simp: load_file_or_resource_def py_open_None is_IOError_def sp resource_stream_def
        file_seek_def Let_def split: sum.splits)
qed

text \<open>
  Claim C2. The local backend, with the calls it makes listed in order. An identifier that
  starts with \<^verbatim>\<open>file://\<close> is opened without the prefix; when that fails, the only call made
  is the \<^verbatim>\<open>open\<close> and its error is the result; when it succeeds, the file at the
  stripped path is what is read. Any other identifier is opened as it is;
  when that fails and the identifier has no \<^verbatim>\<open>/\<close>, the error of the \<^verbatim>\<open>open\<close> is the
  result; when it has one, the part before the first \<^verbatim>\<open>/\<close> and the part after it are
  passed to \<^verbatim>\<open>resource_stream\<close>, whose outcome decides the result.
\<close>

theorem local_backend_resolution:
  "(prefix ''file://'' url \<and> files e (drop (length ''file://'') url) = None \<longrightarrow>
      load_file_or_resource e url off len
        = ([Open (drop (length ''file://'') url)],
           Inl (IOError (drop (length ''file://'') url))))
   \<and> (prefix ''file://'' url \<and> files e (drop (length ''file://'') url) = Some bytes \<longrightarrow>
      load_file_or_resource e url off len
        = ([Open (drop (length ''file://'') url)],
           Inr (let afile = \<lparr>content = bytes, pos = (if off > 0 then nat off else 0)\<rparr>
                in if len \<ge> 0 then Limited (LimitReader_init (FileObj afile) len)
                   else Raw (FileObj afile))))
   \<and> (\<not> prefix ''file://'' url \<and> files e url = None \<and> CHR ''/'' \<notin> set url \<longrightarrow>
      load_file_or_resource e url off len = ([Open url], Inl (IOError url)))
   \<and> (\<not> prefix ''file://'' url \<and> files e url = None
        \<and> url = ns @ CHR ''/'' # rel \<and> CHR ''/'' \<notin> set ns \<longrightarrow>
      load_file_or_resource e url off len
        = ([Open url, ResourceStream ns rel],
           case resources e ns rel of
             Inl err \<Rightarrow> Inl err
           | Inr bytes \<Rightarrow>
               Inr (let afile = \<lparr>content = bytes, pos = (if off > 0 then nat off else 0)\<rparr>
                    in if len \<ge> 0 then Limited (LimitReader_init (FileObj afile) len)
                       else Raw (FileObj afile))))"
proof (intro conjI impI)
  assume "prefix ''file://'' url \<and> files e (drop (length ''file://'') url) = None"
  then show "load_file_or_resource e url off len
        = ([Open (drop (length ''file://'') url)],
           Inl (IOError (drop (length ''file://'') url)))"
    using file_only_fails by blast
next
  assume "prefix ''file://'' url \<and> files e (drop (length ''file://'') url) = Some bytes"
  then show "load_file_or_resource e url off len
        = ([Open (drop (length ''file://'') url)],
           Inr (let afile = \<lparr>content = bytes, pos = (if off > 0 then nat off else 0)\<rparr>
                in if len \<ge> 0 then Limited (LimitReader_init (FileObj afile) len)
                   else Raw (FileObj afile)))"
    using file_only_opens [of url e bytes off len] by blast
next
  assume "\<not> prefix ''file://'' url \<and> files e url = None \<and> CHR ''/'' \<notin> set url"
  then show "load_file_or_resource e url off len = ([Open url], Inl (IOError url))"
    using bare_no_slash by blast
next
  assume "\<not> prefix ''file://'' url \<and> files e url = None
        \<and> url = ns @ CHR ''/'' # rel \<and> CHR ''/'' \<notin> set ns"
  then show "load_file_or_resource e url off len
        = ([Open url, ResourceStream ns rel],
           case resources e ns rel of
             Inl err \<Rightarrow> Inl err
           | Inr bytes \<Rightarrow>
               Inr (let afile = \<lparr>content = bytes, pos = (if off > 0 then nat off else 0)\<rparr>
                    in if len \<ge> 0 then Limited (LimitReader_init (FileObj afile) len)
                       else Raw (FileObj afile)))"
    using bare_fallback [of url e ns rel off len] by blast
qed

text \<open>
  In the example world \<^verbatim>\<open>pkg/a/b.txt\<close> is no file but is a packaged resource: behind
  \<^verbatim>\<open>file://\<close> the load fails without asking for the resource, bare it falls back to
  the resource, and \<^verbatim>\<open>nosuch\<close> fails with the error of the \<^verbatim>\<open>open\<close>.
\<close>

theorem local_backend_resolution_witness:
  "load_file_or_resource example_env ''file://pkg/a/b.txt'' 0 (- 1)
     = ([Open ''pkg/a/b.txt''], Inl (IOError ''pkg/a/b.txt''))
   \<and> load_file_or_resource example_env ''file://data/x.txt'' 0 (- 1)
       = ([Open ''data/x.txt''], Inr (Raw (FileObj \<lparr>content = ''abcdef'', pos = 0\<rparr>)))
   \<and> load_file_or_resource example_env ''nosuch'' 0 (- 1)
       = ([Open ''nosuch''], Inl (IOError ''nosuch''))
   \<and> load_file_or_resource example_env ''pkg/a/b.txt'' 0 (- 1)
       = ([Open ''pkg/a/b.txt'', ResourceStream ''pkg'' ''a/b.txt''],
          Inr (Raw (FileObj \<lparr>content = ''resource'', pos = 0\<rparr>)))"
proof -
  have a: "prefix ''file://'' ''file://pkg/a/b.txt''
           \<and> files example_env (drop (length ''file://'') ''file://pkg/a/b.txt'') = None"
    by (simp add: example_env_def)
  have b: "prefix ''file://'' ''file://data/x.txt''
           \<and> files example_env (drop (length ''file://'') ''file://data/x.txt'') = Some ''abcdef''"
    by (simp add: example_env_def)
  have c: "\<not> prefix ''file://'' ''nosuch'' \<and> files example_env ''nosuch'' = None
           \<and> CHR ''/'' \<notin> set ''nosuch''"
    by (simp add: example_env_def)
  have d: "\<not> prefix ''file://'' ''pkg/a/b.txt'' \<and> files example_env ''pkg/a/b.txt'' = None
           \<and> ''pkg/a/b.txt'' = ''pkg'' @ CHR ''/'' # ''a/b.txt'' \<and> CHR ''/'' \<notin> set ''pkg''"
    by (simp add: example_env_def)
  have res: "resources example_env ''pkg'' ''a/b.txt'' = Inr ''resource''"
    by (simp add: example_env_def)
  from a local_backend_resolution
    [where url = "''file://pkg/a/b.txt''" and e = example_env and off = 0 and len = "- 1"]
  have 1: "load_file_or_resource example_env ''file://pkg/a/b.txt'' 0 (- 1)
     = ([Open ''pkg/a/b.txt''], Inl (IOError ''pkg/a/b.txt''))"
    by simp
  from b local_backend_resolution
    [where url = "''file://data/x.txt''" and e = example_env and off = 0 and len = "- 1"
       and bytes = "''abcdef''"]
  have 2: "load_file_or_resource example_env ''file://data/x.txt'' 0 (- 1)
       = ([Open ''data/x.txt''], Inr (Raw (FileObj \<lparr>content = ''abcdef'', pos = 0\<rparr>)))"
    by simp
  from c local_backend_resolution
    [where url = "''nosuch''" and e = example_env and off = 0 and len = "- 1"]
  have 3: "load_file_or_resource example_env ''nosuch'' 0 (- 1)
       = ([Open ''nosuch''], Inl (IOError ''nosuch''))"
    by simp
  from d local_backend_resolution
    [where url = "''pkg/a/b.txt''" and e = example_env and off = 0 and len = "- 1"
       and ns = "''pkg''" and rel = "''a/b.txt''"]
  have 4: "load_file_or_resource example_env ''pkg/a/b.txt'' 0 (- 1)
       = ([Open ''pkg/a/b.txt'', ResourceStream ''pkg'' ''a/b.txt''],
          Inr (Raw (FileObj \<lparr>content = ''resource'', pos = 0\<rparr>)))"
    by (simp add: res)
  from 1 2 3 4 show ?thesis by blast
qed

section \<open>LimitReader.wrap_stream\<close>




section \<open>BlockLoader: the HTTP backend\<close>

lemma str_int_examples:
  "str_int 0 = ''0''" "str_int 7 = ''7''" "str_int 1234 = ''1234''" "str_int (- 50) = ''-50''"
  by code_simp+


lemma range_header:
  "req_headers (load_http_request e self url off len) ''Range''
     = Some (if len > 0 then ''bytes='' @ str_int off @ ''-'' @ str_int (off + len - 1)
             else ''bytes='' @ str_int off @ ''-'')"
  by (simp add: load_http_request_def Let_def split: option.splits)

text \<open>
  Claim C6. A load of an HTTP(S) URL makes one call, \<^verbatim>\<open>urlopen\<close>, on a request for that
  URL whose \<^verbatim>\<open>Range\<close> header is \<^verbatim>\<open>bytes=\<close>, the offset, \<^verbatim>\<open>-\<close> and, when the length is
  positive, the value of offset + length - 1; for a length of zero or less nothing
  follows the \<^verbatim>\<open>-\<close>. A cookie header, when there is one, leaves it alone.
\<close>

theorem http_range_header:
  assumes "is_http url"
  shows "fst (load e self url off len) = [UrlOpen (load_http_request e self url off len)]
       \<and> req_url (load_http_request e self url off len) = url
       \<and> req_headers (load_http_request e self url off len) ''Range''
           = Some (if len > 0 then ''bytes='' @ str_int off @ ''-'' @ str_int (off + len - 1)
                   else ''bytes='' @ str_int off @ ''-'')"
  using assms
  by (simp add: load_def load_http_def Let_def range_header) (simp add: load_http_request_def Let_def)

theorem http_range_header_witness:
  "is_http ''http://example.com/a.warc.gz''
   \<and> req_headers (load_http_request example_env
         \<lparr>cookie_maker = Some \<lparr>key = ''k'', name = ''n'', duration = 10\<rparr>\<rparr>
         ''http://example.com/a.warc.gz'' 10 5) ''Range'' = Some ''bytes=10-14''
   \<and> req_headers (load_http_request example_env
         \<lparr>cookie_maker = Some \<lparr>key = ''k'', name = ''n'', duration = 10\<rparr>\<rparr>
         ''http://example.com/a.warc.gz'' 10 0) ''Range'' = Some ''bytes=10-''
   \<and> req_headers (load_http_request example_env
         \<lparr>cookie_maker = Some \<lparr>key = ''k'', name = ''n'', duration = 10\<rparr>\<rparr>
         ''http://example.com/a.warc.gz'' 10 (- 1)) ''Range'' = Some ''bytes=10-''"
proof -
  let ?self = "\<lparr>cookie_maker = Some \<lparr>key = ''k'', name = ''n'', duration = 10\<rparr>\<rparr>"
  let ?url = "''http://example.com/a.warc.gz''"
  have http: "is_http ?url" by code_simp
  have ten: "str_int 10 = ''10''" and fourteen: "str_int 14 = ''14''" by code_simp+
  from http_range_header [OF http, of example_env ?self 10 5]
  have 1: "req_headers (load_http_request example_env ?self ?url 10 5) ''Range''
             = Some ''bytes=10-14''"
    by (simp add: ten fourteen)
  from http_range_header [OF http, of example_env ?self 10 0]
  have 2: "req_headers (load_http_request example_env ?self ?url 10 0) ''Range''
             = Some ''bytes=10-''"
    by (simp add: ten)
  from http_range_header [OF http, of example_env ?self 10 "- 1"]
  have 3: "req_headers (load_http_request example_env ?self ?url 10 (- 1)) ''Range''
             = Some ''bytes=10-''"
    by (simp add: ten)
  from http 1 2 3 show ?thesis by blast
qed

text \<open>
  Claim C7. What a load of an HTTP(S) URL returns is what \<^verbatim>\<open>urlopen\<close> returned, the
  response body as it is (or its exception): for no offset and no length, a length of
  zero or more included, is the result a \<^verbatim>\<open>LimitReader\<close>.
\<close>

theorem http_not_wrapped:
  assumes "is_http url"
  shows "snd (load e self url off len)
           = (case urlopen e (load_http_request e self url off len) of
                Inl err \<Rightarrow> Inl err
              | Inr body \<Rightarrow> Inr (Raw (HttpBody \<lparr>content = body, pos = 0\<rparr>)))
         \<and> (\<forall>lr. snd (load e self url off len) \<noteq> Inr (Limited lr))"
  using assms by (simp add: load_def load_http_def Let_def split: sum.splits)

theorem http_not_wrapped_witness:
  "is_http ''https://example.com/a.warc.gz''
   \<and> snd (load example_env \<lparr>cookie_maker = None\<rparr> ''https://example.com/a.warc.gz'' 10 5)
       = Inr (Raw (HttpBody \<lparr>content = ''response body'', pos = 0\<rparr>))"
proof -
  have http: "is_http ''https://example.com/a.warc.gz''" by code_simp
  from http_not_wrapped [OF http, of example_env "\<lparr>cookie_maker = None\<rparr>" 10 5]
  have "snd (load example_env \<lparr>cookie_maker = None\<rparr> ''https://example.com/a.warc.gz'' 10 5)
       = Inr (Raw (HttpBody \<lparr>content = ''response body'', pos = 0\<rparr>))"
    by (simp add: example_env_def)
  with http show ?thesis by blast
qed

section \<open>HMACCookieMaker\<close>

text \<open>The rounding at work: the float nearest to one tenth, a sum that is exact, a sum
  that a tie rounds up to the next integer, and a sum that a tie rounds down.\<close>

lemma round_double_examples:
  "round_double 0.1 = 3602879701896397 / 36028797018963968"
  "double_add 2147483647.5 10 = 2147483657.5"
  "double_add (2147483648 - 1 / 4194304) 10 = 2147483658"
  "double_add (2 ^ 53) 1 = 2 ^ 53"
  by code_simp+





section \<open>SeekableTextFileReader\<close>

lemma apply_call_size: "size_attr (snd (apply_call c self)) = size_attr self"
  by (cases c) (simp_all add: SeekableTextFileReader_read_def SeekableTextFileReader_readline_def
      SeekableTextFileReader_seek_def split_beta Let_def split: sum.splits)

lemma apply_calls_size: "size_attr (apply_calls cs self) = size_attr self"
  by (induction cs arbitrary: self) (simp_all add: apply_call_size)

text \<open>
  Claim C9. No sequence of \<^verbatim>\<open>read\<close>, \<^verbatim>\<open>readline\<close> and \<^verbatim>\<open>seek\<close> calls changes what
  \<^verbatim>\<open>getsize\<close> returns; and on a reader opened on an existing file it returns the number
  of bytes the file had when it was opened, before and after any such calls.
\<close>

theorem getsize_fixed_at_open:
  "getsize (apply_calls cs self) = getsize self
   \<and> (files e fname = Some bytes \<longrightarrow>
        (\<exists>r. SeekableTextFileReader_init e fname = Inr r
           \<and> getsize r = int (length bytes)
           \<and> getsize (apply_calls cs r) = int (length bytes)))"
  by (simp add: getsize_def apply_calls_size SeekableTextFileReader_init_def py_open_def
      os_path_getsize_def)

theorem getsize_fixed_at_open_witness:
  "SeekableTextFileReader_init example_env ''data/x.txt''
     = Inr \<lparr>fh = \<lparr>content = ''abcdef'', pos = 0\<rparr>, filename = ''data/x.txt'', size_attr = 6\<rparr>
   \<and> getsize (apply_calls [RSeek 2, RReadline, RSeek (- 1), RSeek 100, RRead]
        \<lparr>fh = \<lparr>content = ''abcdef'', pos = 0\<rparr>, filename = ''data/x.txt'', size_attr = 6\<rparr>) = 6"
proof -
  let ?r = "\<lparr>fh = \<lparr>content = ''abcdef'', pos = 0\<rparr>, filename = ''data/x.txt'', size_attr = 6\<rparr>"
  have present: "files example_env ''data/x.txt'' = Some ''abcdef''"
    by (simp add: example_env_def)
  have opened: "SeekableTextFileReader_init example_env ''data/x.txt'' = Inr ?r"
    by code_simp
  from present opened getsize_fixed_at_open
    [where e = example_env and fname = "''data/x.txt''" and bytes = "''abcdef''"
       and cs = "[RSeek 2, RReadline, RSeek (- 1), RSeek 100, RRead]"]
  have "getsize (apply_calls [RSeek 2, RReadline, RSeek (- 1), RSeek 100, RRead] ?r) = 6"
    by simp
  with opened show ?thesis by blast
qed

end
